theory Spec2Isabelle
  imports Main "HOL-Library.Char_ord" "HOL-Library.List_Lexorder"
begin

section \<open>Data model\<close>

text \<open>
  The dashboard of \<^verbatim>\<open>app.py\<close> keeps two tables for the life of the process: the match
  table and the ball-by-ball delivery table, the latter enriched with the season of its
  match by a left join. A table is the list of its rows, in file order. A cell that pandas
  reads as missing (NaN) is \<open>None\<close>. Text is a list of characters, read as code points
  below 256; text is ordered as Python orders \<^verbatim>\<open>str\<close>, lexicographically by code point.
  Integer columns are unbounded integers: the 64-bit range of the frames is taken to be
  wide enough for every total computed here.
\<close>

datatype error = ValueError | IndexError | RemoteServiceError

record match_row =
  id_col :: int
  season_col :: "string option"

record csv_delivery =
  match_id :: int
  batter :: "string option"
  bowler :: "string option"
  batsman_runs :: int
  is_wicket :: int

record delivery = csv_delivery +
  season :: "string option"

text \<open>
  \<^verbatim>\<open>deliveries.merge(matches[["id", "season"]], left_on="match_id", right_on="id", how="left")\<close>:
  every delivery row is kept, in order, once per match row with its identifier, and once
  with a missing season when there is none.
\<close>

definition with_season :: "csv_delivery \<Rightarrow> string option \<Rightarrow> delivery" where
  "with_season d s =
     \<lparr>match_id = match_id d, batter = batter d, bowler = bowler d,
      batsman_runs = batsman_runs d, is_wicket = is_wicket d, season = s\<rparr>"

definition merge_left :: "csv_delivery list \<Rightarrow> match_row list \<Rightarrow> delivery list" where
  "merge_left ds ms =
     concat (map (\<lambda>d.
       (case filter (\<lambda>m. id_col m = match_id d) ms of
          [] \<Rightarrow> [with_season d None]
        | hits \<Rightarrow> map (\<lambda>m. with_season d (season_col m)) hits)) ds)"

section \<open>The dataframe operations the program calls\<close>

text \<open>
  \<^verbatim>\<open>groupby(key)[col].sum()\<close>: rows with a missing key are dropped, the rows of one key
  are summed, and the result is indexed by the keys in ascending order. The frame is
  scanned once; \<open>add_to\<close> adds a value to the bucket of its key, opening the bucket at
  its sorted position when the key is new.
\<close>

fun add_to :: "'k::linorder \<Rightarrow> int \<Rightarrow> ('k \<times> int) list \<Rightarrow> ('k \<times> int) list" where
  "add_to k v [] = [(k, v)]"
| "add_to k v ((k', v') # kvs) =
     (if k = k' then (k', v' + v) # kvs
      else if k < k' then (k, v) # (k', v') # kvs
      else (k', v') # add_to k v kvs)"

definition groupby_sum ::
  "('r \<Rightarrow> 'k::linorder option) \<Rightarrow> ('r \<Rightarrow> int) \<Rightarrow> 'r list \<Rightarrow> ('k \<times> int) list" where
  "groupby_sum key val rows =
     foldl (\<lambda>acc r. case key r of None \<Rightarrow> acc | Some k \<Rightarrow> add_to k (val r) acc) [] rows"

text \<open>\<^verbatim>\<open>groupby(key).size()\<close>: the number of rows of each key.\<close>

definition groupby_size :: "('r \<Rightarrow> 'k::linorder option) \<Rightarrow> 'r list \<Rightarrow> ('k \<times> int) list" where
  "groupby_size key rows = groupby_sum key (\<lambda>r. 1) rows"

text \<open>
  \<^verbatim>\<open>Series.nlargest(n)\<close> with the default \<^verbatim>\<open>keep="first"\<close>: pandas negates the values,
  sorts them stably in ascending order and keeps the first \<open>n\<close>, so equal values stay in
  index order.
\<close>

definition nlargest :: "nat \<Rightarrow> ('k \<times> int) list \<Rightarrow> ('k \<times> int) list" where
  "nlargest n s = take n (sort_key (\<lambda>kv. - snd kv) s)"

text \<open>
  \<^verbatim>\<open>Series.idxmax()\<close>: the label of the first largest value; on an empty series pandas
  raises \<^verbatim>\<open>ValueError\<close> (argmax of an empty sequence).
\<close>

fun first_max :: "'k \<times> int \<Rightarrow> ('k \<times> int) list \<Rightarrow> 'k \<times> int" where
  "first_max best [] = best"
| "first_max best (kv # kvs) = first_max (if snd best < snd kv then kv else best) kvs"

definition idxmax :: "('k \<times> int) list \<Rightarrow> error + 'k" where
  "idxmax s = (case s of [] \<Rightarrow> Inl ValueError | kv # kvs \<Rightarrow> Inr (fst (first_max kv kvs)))"

text \<open>\<^verbatim>\<open>dropna()\<close> on a column, and \<^verbatim>\<open>unique()\<close>: the values in order of first appearance.\<close>

fun dropna :: "'a option list \<Rightarrow> 'a list" where
  "dropna [] = []"
| "dropna (None # xs) = dropna xs"
| "dropna (Some x # xs) = x # dropna xs"

fun unique_from :: "'a list \<Rightarrow> 'a list \<Rightarrow> 'a list" where
  "unique_from seen [] = []"
| "unique_from seen (x # xs) =
     (if x \<in> set seen then unique_from seen xs else x # unique_from (x # seen) xs)"

definition unique :: "'a list \<Rightarrow> 'a list" where
  "unique xs = unique_from [] xs"

text \<open>\<^verbatim>\<open>nunique()\<close>: the number of distinct values of a column.\<close>

definition nunique :: "'a list \<Rightarrow> nat" where
  "nunique xs = length (unique xs)"

section \<open>Load\<close>

text \<open>\<^verbatim>\<open>players = sorted(deliveries["batter"].dropna().unique())\<close>\<close>

definition players :: "delivery list \<Rightarrow> string list" where
  "players deliveries = sort (unique (dropna (map batter deliveries)))"

section \<open>Analytics\<close>

text \<open>
  The functions read the global frame \<^verbatim>\<open>deliveries\<close>; here it is their first argument.
  A frame returned after \<^verbatim>\<open>reset_index()\<close> is the list of its (label, value) rows.
\<close>

definition top_run_scorers :: "delivery list \<Rightarrow> (string \<times> int) list" where
  "top_run_scorers deliveries = nlargest 10 (groupby_sum batter batsman_runs deliveries)"

definition top_wicket_takers :: "delivery list \<Rightarrow> (string \<times> int) list" where
  "top_wicket_takers deliveries =
     nlargest 10 (groupby_size bowler (filter (\<lambda>d. is_wicket d = 1) deliveries))"

text \<open>
  The strike rate is the integer \<open>0\<close> when no ball was faced and a float otherwise. The
  float expression \<^verbatim>\<open>round((runs / balls) * 100, 2)\<close> is the parameter \<open>fsr\<close>: binary
  floating point is outside this embedding, and every result below holds for any reading
  of it.
\<close>

datatype 'f number = IntNum int | FloatNum 'f

definition strike_rate :: "(int \<Rightarrow> nat \<Rightarrow> 'f) \<Rightarrow> int \<Rightarrow> nat \<Rightarrow> 'f number" where
  "strike_rate fsr runs balls = (if balls \<noteq> 0 then FloatNum (fsr runs balls) else IntNum 0)"

definition player_stats ::
  "(int \<Rightarrow> nat \<Rightarrow> 'f) \<Rightarrow> delivery list \<Rightarrow> string \<Rightarrow> error + (int \<times> 'f number \<times> nat \<times> string)" where
  "player_stats fsr deliveries player =
     (let df = filter (\<lambda>d. batter d = Some player) deliveries;
          runs = sum_list (map batsman_runs df);
          balls = length df;
          sr = strike_rate fsr runs balls;
          matches_played = nunique (map match_id df)
      in case idxmax (groupby_sum season batsman_runs df) of
           Inl e \<Rightarrow> Inl e
         | Inr best_season \<Rightarrow> Inr (runs, sr, matches_played, best_season))"

definition player_trend :: "delivery list \<Rightarrow> string \<Rightarrow> (string \<times> int) list" where
  "player_trend deliveries player =
     groupby_sum season batsman_runs (filter (\<lambda>d. batter d = Some player) deliveries)"

section \<open>Text\<close>

text \<open>
  \<^verbatim>\<open>str.lower()\<close> on code points below 256: the capital letters \<open>A\<close> to \<open>Z\<close> and the
  accented capitals 192 to 222 (but the multiplication sign 215) move up by 32.
\<close>

definition lower_char :: "char \<Rightarrow> char" where
  "lower_char c =
     (let n = (of_char c :: nat)
      in if (65 \<le> n \<and> n \<le> 90) \<or> (192 \<le> n \<and> n \<le> 222 \<and> n \<noteq> 215)
         then char_of (n + 32) else c)"

definition lower :: "string \<Rightarrow> string" where
  "lower s = map lower_char s"

text \<open>\<^verbatim>\<open>str.strip()\<close>: white space is removed at both ends.\<close>

definition is_space :: "char \<Rightarrow> bool" where
  "is_space c = ((of_char c :: nat) \<in> {9, 10, 11, 12, 13, 28, 29, 30, 31, 32, 133, 160})"

definition strip :: "string \<Rightarrow> string" where
  "strip s = rev (dropWhile is_space (rev (dropWhile is_space s)))"

text \<open>\<^verbatim>\<open>k in q\<close> on text: \<open>k\<close> occurs in \<open>q\<close> as a contiguous run of characters.\<close>

fun starts_with :: "string \<Rightarrow> string \<Rightarrow> bool" where
  "starts_with [] q = True"
| "starts_with (c # cs) [] = False"
| "starts_with (c # cs) (d # ds) = (c = d \<and> starts_with cs ds)"

fun occurs_in :: "string \<Rightarrow> string \<Rightarrow> bool" where
  "occurs_in k [] = (k = [])"
| "occurs_in k (c # cs) = (starts_with k (c # cs) \<or> occurs_in k cs)"

text \<open>\<^verbatim>\<open>any(k in q for k in keywords)\<close>\<close>

definition any_in :: "string list \<Rightarrow> string \<Rightarrow> bool" where
  "any_in keywords q = list_ex (\<lambda>k. occurs_in k q) keywords"

text \<open>The decimal text of an integer, as an f-string writes it.\<close>

definition digit :: "nat \<Rightarrow> char" where
  "digit d = ''0123456789'' ! (d mod 10)"

function str_nat :: "nat \<Rightarrow> string" where
  "str_nat n = (if n < 10 then [digit n] else str_nat (n div 10) @ [digit (n mod 10)])"
  by pat_completeness auto
termination
  by (relation "measure id") auto

definition str_int :: "int \<Rightarrow> string" where
  "str_int i = (if i < 0 then ''-'' @ str_nat (nat (- i)) else str_nat (nat i))"

text \<open>
  The text of a strike rate inside an f-string: an integer as above, a float by the
  parameter \<open>fstr\<close> (the \<^verbatim>\<open>str\<close> of a float).
\<close>

fun str_number :: "('f \<Rightarrow> string) \<Rightarrow> 'f number \<Rightarrow> string" where
  "str_number fstr (IntNum i) = str_int i"
| "str_number fstr (FloatNum x) = fstr x"

text \<open>
  For the evaluation of examples only, an exact-arithmetic stand-in for the two float
  parameters: the strike rate in hundredths, rounded half to even, and its decimal text
  with one or two decimals. It is not Python's arithmetic on binary floats: the two
  differ where the exact value lies halfway between two hundredths (23 runs off 160
  balls give 14.37 in Python and 1438 hundredths here). No theorem depends on it; it
  only fills the parameters where an example needs a value.
\<close>

definition exact_sr :: "int \<Rightarrow> nat \<Rightarrow> int" where
  "exact_sr runs balls =
     (let n = runs * 10000; b = int balls; q = n div b; r = n mod b
      in if 2 * r < b then q else if b < 2 * r then q + 1 else if even q then q else q + 1)"

definition exact_str :: "int \<Rightarrow> string" where
  "exact_str h =
     (let a = \<bar>h\<bar>; whole = a div 100; cents = a mod 100
      in (if h < 0 then ''-'' else []) @ str_int whole @ ''.'' @
         (if cents mod 10 = 0 then [digit (nat (cents div 10))]
          else [digit (nat (cents div 10)), digit (nat (cents mod 10))]))"

section \<open>The language-model client\<close>

text \<open>
  \<^verbatim>\<open>llm_answer\<close> wraps \<open>facts\<close> and \<open>question\<close> in a fixed prompt, sends it in one
  request and returns the stripped text of the first choice. The prompt template, the
  model name, the temperature and the token limit are constants, so one request to the
  remote service is given by the facts and the question, and its outcome is the reply
  text or the failure of the request. Every operation below makes at most one request,
  so nothing is assumed about two requests giving the same reply. Nothing in
  \<^verbatim>\<open>llm_answer\<close> catches the failure.
\<close>

type_synonym remote = "string \<Rightarrow> string \<Rightarrow> error + string"

definition llm_answer :: "remote \<Rightarrow> string \<Rightarrow> string \<Rightarrow> error + string" where
  "llm_answer client facts question =
     (case client facts question of Inl e \<Rightarrow> Inl e | Inr content \<Rightarrow> Inr (strip content))"

text \<open>Two remote services for examples: one answers with the facts, one always fails.\<close>

definition echo_client :: remote where
  "echo_client facts question = Inr facts"

definition failing_client :: remote where
  "failing_client facts question = Inl RemoteServiceError"

section \<open>Ask AI\<close>

text \<open>
  A figure of \<^verbatim>\<open>px.bar(df, x=..., y=..., height=..., color_discrete_sequence=[...])\<close>
  is the record of what it was built from.
\<close>

record bar_chart =
  x_col :: string
  y_col :: string
  bars :: "(string \<times> int) list"
  height :: nat
  colour :: string

type_synonym answer = "string \<times> bar_chart option \<times> string"

definition run_keywords :: "string list" where
  "run_keywords = [''run'', ''runs'', ''run scorer'']"

definition wicket_keywords :: "string list" where
  "wicket_keywords = [''wicket'', ''wickets'', ''wicket taker'']"

text \<open>
  The three branches of \<^verbatim>\<open>ask_ai\<close>. \<^verbatim>\<open>df.iloc[0]\<close> raises \<^verbatim>\<open>IndexError\<close> on an empty
  frame, before the remote call is made.
\<close>

definition run_scorer_branch :: "remote \<Rightarrow> delivery list \<Rightarrow> string \<Rightarrow> error + answer" where
  "run_scorer_branch client deliveries question =
     (let df = top_run_scorers deliveries
      in case df of
           [] \<Rightarrow> Inl IndexError
         | leader # rest \<Rightarrow>
             (let facts = ''In the IPL, '' @ fst leader @ '' is the highest run scorer with '' @
                          str_int (snd leader) @ '' runs.''
              in case llm_answer client facts question of
                   Inl e \<Rightarrow> Inl e
                 | Inr ans \<Rightarrow>
                     Inr (ans,
                          Some \<lparr>x_col = ''batter'', y_col = ''batsman_runs'', bars = df,
                                height = 650, colour = ''#4988C4''\<rparr>,
                          [])))"

definition wicket_taker_branch :: "remote \<Rightarrow> delivery list \<Rightarrow> string \<Rightarrow> error + answer" where
  "wicket_taker_branch client deliveries question =
     (let df = top_wicket_takers deliveries
      in case df of
           [] \<Rightarrow> Inl IndexError
         | leader # rest \<Rightarrow>
             (let facts = ''In the IPL, '' @ fst leader @ '' is the leading wicket taker with '' @
                          str_int (snd leader) @ '' wickets.''
              in case llm_answer client facts question of
                   Inl e \<Rightarrow> Inl e
                 | Inr ans \<Rightarrow>
                     Inr (ans,
                          Some \<lparr>x_col = ''bowler'', y_col = ''wickets'', bars = df,
                                height = 650, colour = ''#1C4D8D''\<rparr>,
                          [])))"

definition fallback_branch :: "remote \<Rightarrow> string \<Rightarrow> error + answer" where
  "fallback_branch client question =
     (case llm_answer client
             ''This question relates to IPL cricket but no numerical fact was matched.''
             question of
        Inl e \<Rightarrow> Inl e
      | Inr ans \<Rightarrow> Inr (ans, None, []))"

definition ask_ai :: "remote \<Rightarrow> delivery list \<Rightarrow> string \<Rightarrow> error + answer" where
  "ask_ai client deliveries question =
     (let q = lower question
      in if any_in run_keywords q then run_scorer_branch client deliveries question
         else if any_in wicket_keywords q then wicket_taker_branch client deliveries question
         else fallback_branch client question)"

section \<open>Compare players\<close>

definition stats_line :: "('f \<Rightarrow> string) \<Rightarrow> string \<Rightarrow> int \<Rightarrow> 'f number \<Rightarrow> nat \<Rightarrow> string" where
  "stats_line fstr p r sr m =
     p @ '': '' @ str_int r @ '' runs, strike rate '' @ str_number fstr sr @ '', '' @
     str_nat m @ '' matches'' @ [CHR 0x0A]"

definition compare_players ::
  "remote \<Rightarrow> (int \<Rightarrow> nat \<Rightarrow> 'f) \<Rightarrow> ('f \<Rightarrow> string) \<Rightarrow> delivery list \<Rightarrow> string \<Rightarrow> string \<Rightarrow>
   error + (string \<times> bar_chart)" where
  "compare_players client fsr fstr deliveries p1 p2 =
     (case player_stats fsr deliveries p1 of
        Inl e \<Rightarrow> Inl e
      | Inr (r1, sr1, m1, best1) \<Rightarrow>
          (case player_stats fsr deliveries p2 of
             Inl e \<Rightarrow> Inl e
           | Inr (r2, sr2, m2, best2) \<Rightarrow>
               (let facts = [CHR 0x0A] @ ''In the IPL:'' @ [CHR 0x0A] @
                            stats_line fstr p1 r1 sr1 m1 @ stats_line fstr p2 r2 sr2 m2
                in case llm_answer client facts (''Compare '' @ p1 @ '' vs '' @ p2) of
                     Inl e \<Rightarrow> Inl e
                   | Inr ans \<Rightarrow>
                       Inr (ans,
                            \<lparr>x_col = ''Player'', y_col = ''Runs'', bars = [(p1, r1), (p2, r2)],
                             height = 550, colour = ''#0F2854''\<rparr>))))"

section \<open>A small dataset for examples\<close>

definition ball :: "int \<Rightarrow> string \<Rightarrow> string \<Rightarrow> int \<Rightarrow> int \<Rightarrow> string option \<Rightarrow> delivery" where
  "ball m bat bowl r w s =
     \<lparr>match_id = m, batter = Some bat, bowler = Some bowl, batsman_runs = r,
      is_wicket = w, season = s\<rparr>"

text \<open>
  Seven deliveries of three matches. Match 3 has no row in the match table, so the left
  join leaves its deliveries (those of Gill) without a season.
\<close>

definition sample :: "delivery list" where
  "sample =
     [ball 1 ''Kohli'' ''Bumrah'' 4 0 (Some ''2020''),
      ball 1 ''Kohli'' ''Bumrah'' 6 0 (Some ''2020''),
      ball 1 ''Dhoni'' ''Bumrah'' 0 1 (Some ''2020''),
      ball 2 ''Kohli'' ''Rashid'' 1 0 (Some ''2021''),
      ball 2 ''Dhoni'' ''Rashid'' 6 0 (Some ''2021''),
      ball 3 ''Gill'' ''Rashid'' 1 1 None,
      ball 3 ''Gill'' ''Bumrah'' 0 1 None]"

text \<open>Five sixes in 2020, then eight sixes and a two in 2021, with one ball of another batter.\<close>

definition trend_sample :: "delivery list" where
  "trend_sample =
     replicate 8 (ball 7 ''Kohli'' ''Rashid'' 6 0 (Some ''2021'')) @
     [ball 7 ''Dhoni'' ''Rashid'' 4 0 (Some ''2021'')] @
     replicate 5 (ball 4 ''Kohli'' ''Bumrah'' 6 0 (Some ''2020'')) @
     [ball 7 ''Kohli'' ''Rashid'' 2 0 (Some ''2021'')]"

section \<open>Properties of the dataframe operations\<close>

lemma set_unique_from: "set (unique_from seen xs) = set xs - set seen"
  by (induction xs arbitrary: seen) auto

lemma distinct_unique_from: "distinct (unique_from seen xs)"
  by (induction xs arbitrary: seen) (auto simp: set_unique_from)

lemma set_dropna: "set (dropna xs) = {x. Some x \<in> set xs}"
  by (induction xs rule: dropna.induct) auto

subsection \<open>One bucket\<close>

lemma keys_add_to: "fst ` set (add_to k v kvs) = insert k (fst ` set kvs)"
  by (induction k v kvs rule: add_to.induct) (simp_all add: insert_commute)

lemma sorted_add_to:
  "sorted_wrt (<) (map fst kvs) \<Longrightarrow> sorted_wrt (<) (map fst (add_to k v kvs))"
proof (induction kvs)
  case Nil
  then show ?case by simp
next
  case (Cons kv kvs)
  obtain k' v' where kv: "kv = (k', v')" by (cases kv)
  have "\<forall>y \<in> fst ` set (add_to k v kvs). k' < y" if "k' < k"
    using that Cons.prems by (auto simp: keys_add_to kv)
  then show ?case
    using Cons by (auto simp: kv)
qed

lemma sum_add_to: "sum_list (map snd (add_to k v kvs)) = v + sum_list (map snd kvs)"
  by (induction kvs) auto

lemma bucket_add_to:
  "sum_list (map snd (filter (\<lambda>kv. fst kv = j) (add_to k v kvs))) =
     (if j = k then v else 0) + sum_list (map snd (filter (\<lambda>kv. fst kv = j) kvs))"
  by (induction kvs) auto

lemma bucket_distinct:
  "distinct (map fst kvs) \<Longrightarrow> (k, v) \<in> set kvs \<Longrightarrow>
     sum_list (map snd (filter (\<lambda>kv. fst kv = k) kvs)) = v"
proof (induction kvs)
  case Nil
  then show ?case by simp
next
  case (Cons kv kvs)
  show ?case
  proof (cases "kv = (k, v)")
    case True
    with Cons.prems have "filter (\<lambda>kv. fst kv = k) kvs = []"
      by (auto simp: filter_empty_conv image_iff)
    with True show ?thesis by simp
  next
    case False
    with Cons.prems have "(k, v) \<in> set kvs" "fst kv \<noteq> k"
      by (auto simp: image_iff)
    with Cons show ?thesis by simp
  qed
qed

subsection \<open>Grouping\<close>

lemma keys_fold:
  "fst ` set (foldl (\<lambda>acc r. case key r of None \<Rightarrow> acc | Some k \<Rightarrow> add_to k (val r) acc) acc rows) =
     fst ` set acc \<union> {k. Some k \<in> key ` set rows}"
proof (induction rows arbitrary: acc)
  case Nil
  then show ?case by simp
next
  case (Cons r rows)
  show ?case
  proof (cases "key r")
    case None
    then show ?thesis using Cons.IH [of acc] by auto
  next
    case (Some k)
    then show ?thesis using Cons.IH [of "add_to k (val r) acc"] by (auto simp: keys_add_to)
  qed
qed

lemma sorted_fold:
  "sorted_wrt (<) (map fst acc) \<Longrightarrow>
     sorted_wrt (<) (map fst
       (foldl (\<lambda>acc r. case key r of None \<Rightarrow> acc | Some k \<Rightarrow> add_to k (val r) acc) acc rows))"
  by (induction rows arbitrary: acc) (auto simp: sorted_add_to split: option.splits)

lemma bucket_fold:
  "sum_list (map snd (filter (\<lambda>kv. fst kv = j)
       (foldl (\<lambda>acc r. case key r of None \<Rightarrow> acc | Some k \<Rightarrow> add_to k (val r) acc) acc rows))) =
     sum_list (map snd (filter (\<lambda>kv. fst kv = j) acc)) +
     sum_list (map val (filter (\<lambda>r. key r = Some j) rows))"
  by (induction rows arbitrary: acc) (auto simp: bucket_add_to split: option.splits)

lemma total_fold:
  "sum_list (map snd
       (foldl (\<lambda>acc r. case key r of None \<Rightarrow> acc | Some k \<Rightarrow> add_to k (val r) acc) acc rows)) =
     sum_list (map snd acc) + sum_list (map val (filter (\<lambda>r. key r \<noteq> None) rows))"
  by (induction rows arbitrary: acc) (auto simp: sum_add_to split: option.splits)

lemma keys_groupby_sum: "fst ` set (groupby_sum key val rows) = {k. Some k \<in> key ` set rows}"
  by (simp add: groupby_sum_def keys_fold)

lemma sorted_groupby_sum: "sorted_wrt (<) (map fst (groupby_sum key val rows))"
  by (simp add: groupby_sum_def sorted_fold)

lemma distinct_groupby_sum: "distinct (map fst (groupby_sum key val rows))"
  using sorted_groupby_sum [of key val rows] by (simp add: strict_sorted_iff)

lemma bucket_groupby_sum:
  assumes "(k, v) \<in> set (groupby_sum key val rows)"
  shows "v = sum_list (map val (filter (\<lambda>r. key r = Some k) rows))"
proof -
  have "sum_list (map snd (filter (\<lambda>kv. fst kv = k) (groupby_sum key val rows))) = v"
    using assms by (rule bucket_distinct [OF distinct_groupby_sum])
  then show ?thesis by (simp add: groupby_sum_def bucket_fold)
qed

lemma total_groupby_sum:
  "sum_list (map snd (groupby_sum key val rows)) =
     sum_list (map val (filter (\<lambda>r. key r \<noteq> None) rows))"
  by (simp add: groupby_sum_def total_fold)

lemma groupby_sum_eq:
  "groupby_sum key val rows =
     map (\<lambda>k. (k, sum_list (map val (filter (\<lambda>r. key r = Some k) rows))))
       (sorted_list_of_set {k. Some k \<in> key ` set rows})"
proof -
  let ?g = "groupby_sum key val rows"
  let ?f = "\<lambda>k. sum_list (map val (filter (\<lambda>r. key r = Some k) rows))"
  have "set (map fst ?g) = {k. Some k \<in> key ` set rows}"
    by (simp add: keys_groupby_sum)
  then have keys: "map fst ?g = sorted_list_of_set {k. Some k \<in> key ` set rows}"
    using sorted_groupby_sum [of key val rows]
    by (metis sorted_list_of_set.idem_if_sorted_distinct strict_sorted_iff)
  have "map (\<lambda>kv. (fst kv, ?f (fst kv))) ?g = ?g"
    by (rule map_idI) (auto dest: bucket_groupby_sum)
  then have "?g = map (\<lambda>k. (k, ?f k)) (map fst ?g)"
    by (simp add: comp_def)
  then show ?thesis by (simp only: keys)
qed

subsection \<open>The largest entries\<close>

lemma sum_insort_key:
  fixes g :: "'a \<Rightarrow> int"
  shows "sum_list (map g (insort_key f x xs)) = g x + sum_list (map g xs)"
  by (induction xs) auto

lemma sum_sort_key:
  fixes g :: "'a \<Rightarrow> int"
  shows "sum_list (map g (sort_key f xs)) = sum_list (map g xs)"
  by (induction xs) (auto simp: sum_insort_key)

lemma sum_take_le:
  fixes xs :: "int list"
  assumes "\<forall>x \<in> set xs. 0 \<le> x"
  shows "sum_list (take n xs) \<le> sum_list xs"
proof -
  have "sum_list xs = sum_list (take n xs) + sum_list (drop n xs)"
    by (metis append_take_drop_id sum_list_append)
  moreover have "0 \<le> sum_list (drop n xs)"
    using assms by (auto intro!: sum_list_nonneg dest: in_set_dropD)
  ultimately show ?thesis by simp
qed

lemma length_nlargest: "length (nlargest n s) = min n (length s)"
  by (simp add: nlargest_def min.commute)

lemma set_nlargest: "set (nlargest n s) \<subseteq> set s"
  using set_take_subset [of n "sort_key (\<lambda>kv. - snd kv) s"] by (simp add: nlargest_def)

lemma sorted_nlargest: "sorted_wrt (\<lambda>a b. b \<le> a) (map snd (nlargest n s))"
proof -
  have "sorted (map (\<lambda>kv. - snd kv) (sort_key (\<lambda>kv. - snd kv) s))"
    by (rule sorted_sort_key)
  then have "sorted_wrt (\<lambda>a b. snd b \<le> snd a) (sort_key (\<lambda>kv. - snd kv) s)"
    by (simp add: sorted_wrt_map)
  then have "sorted_wrt (\<lambda>a b. snd b \<le> snd a) (nlargest n s)"
    unfolding nlargest_def by (rule sorted_wrt_take)
  then show ?thesis by (simp add: sorted_wrt_map)
qed

lemma sum_nlargest:
  assumes "\<forall>kv \<in> set s. 0 \<le> snd kv"
  shows "sum_list (map snd (nlargest n s)) \<le> sum_list (map snd s)"
proof -
  have "sum_list (map snd (nlargest n s)) = sum_list (take n (map snd (sort_key (\<lambda>kv. - snd kv) s)))"
    by (simp add: nlargest_def take_map)
  also have "\<dots> \<le> sum_list (map snd (sort_key (\<lambda>kv. - snd kv) s))"
    using assms by (intro sum_take_le) auto
  also have "\<dots> = sum_list (map snd s)"
    by (rule sum_sort_key)
  finally show ?thesis .
qed

section \<open>The player list\<close>

lemma set_players: "set (players ds) = {b. Some b \<in> set (map batter ds)}"
  by (simp add: players_def unique_def set_unique_from set_dropna)

text \<open>
  Claim C10. The player list offered to the selection controls is the set of the batter
  names that occur in the delivery table, missing names left out: it lists each such name
  once, in ascending order.
\<close>

theorem players_distinct_sorted:
  "players ds = sorted_list_of_set {b. Some b \<in> set (map batter ds)} \<and>
   set (players ds) = {b. Some b \<in> set (map batter ds)} \<and>
   distinct (players ds) \<and> sorted (players ds)"
proof -
  have d: "distinct (players ds)"
    by (simp add: players_def unique_def distinct_unique_from)
  have s: "sorted (players ds)"
    by (simp add: players_def)
  from s d have "sorted_list_of_set (set (players ds)) = players ds"
    by (rule sorted_list_of_set.idem_if_sorted_distinct)
  with d s show ?thesis by (simp add: set_players)
qed

theorem players_distinct_sorted_witness:
  "players sample = [''Dhoni'', ''Gill'', ''Kohli''] \<and>
   players sample = sorted_list_of_set {b. Some b \<in> set (map batter sample)}"
proof -
  have "players sample = [''Dhoni'', ''Gill'', ''Kohli'']" by code_simp
  with players_distinct_sorted [of sample] show ?thesis by simp
qed

section \<open>Top run scorers\<close>

lemma length_groupby_batter: "length (groupby_sum batter val ds) = length (players ds)"
proof -
  have "length (map fst (groupby_sum batter val ds)) = card (set (map fst (groupby_sum batter val ds)))"
    by (rule distinct_card [symmetric, OF distinct_groupby_sum])
  also have "\<dots> = card (set (players ds))"
    by (simp add: keys_groupby_sum set_players)
  also have "\<dots> = length (players ds)"
    by (rule distinct_card) (simp add: players_def unique_def distinct_unique_from)
  finally show ?thesis by simp
qed

text \<open>
  Claim C5. \<open>top_run_scorers\<close> returns at most ten entries (ten, or every batter when
  there are fewer), in descending order of their run totals; each total is the sum of
  \<open>batsman_runs\<close> over the deliveries of that batter; and when no delivery has negative
  runs, as the data model says, the returned totals add up to no more than the runs of
  the whole table.
\<close>

theorem top_run_scorers_top10:
  "length (top_run_scorers ds) = min 10 (length (players ds)) \<and>
   length (top_run_scorers ds) \<le> 10 \<and>
   sorted_wrt (\<lambda>a b. b \<le> a) (map snd (top_run_scorers ds)) \<and>
   (\<forall>(b, r) \<in> set (top_run_scorers ds).
      r = sum_list (map batsman_runs (filter (\<lambda>d. batter d = Some b) ds))) \<and>
   ((\<forall>d \<in> set ds. 0 \<le> batsman_runs d) \<longrightarrow>
      sum_list (map snd (top_run_scorers ds)) \<le> sum_list (map batsman_runs ds))"
proof -
  let ?g = "groupby_sum batter batsman_runs ds"
  have len: "length (top_run_scorers ds) = min 10 (length (players ds))"
    by (simp add: top_run_scorers_def length_nlargest length_groupby_batter)
  have srt: "sorted_wrt (\<lambda>a b. b \<le> a) (map snd (top_run_scorers ds))"
    unfolding top_run_scorers_def by (rule sorted_nlargest)
  have tot: "\<forall>(b, r) \<in> set (top_run_scorers ds).
      r = sum_list (map batsman_runs (filter (\<lambda>d. batter d = Some b) ds))"
    using set_nlargest [of 10 ?g]
    by (auto simp: top_run_scorers_def dest!: subsetD dest: bucket_groupby_sum)
  have le: "sum_list (map snd (top_run_scorers ds)) \<le> sum_list (map batsman_runs ds)"
    if nonneg: "\<forall>d \<in> set ds. 0 \<le> batsman_runs d"
  proof -
    have "\<forall>kv \<in> set ?g. 0 \<le> snd kv"
    proof
      fix kv assume "kv \<in> set ?g"
      then have "snd kv = sum_list (map batsman_runs (filter (\<lambda>d. batter d = Some (fst kv)) ds))"
        using bucket_groupby_sum [of "fst kv" "snd kv" batter batsman_runs ds] by simp
      also have "0 \<le> \<dots>"
        using nonneg by (auto intro!: sum_list_nonneg)
      finally show "0 \<le> snd kv" .
    qed
    then have "sum_list (map snd (top_run_scorers ds)) \<le> sum_list (map snd ?g)"
      unfolding top_run_scorers_def by (rule sum_nlargest)
    also have "\<dots> = sum_list (map batsman_runs (filter (\<lambda>d. batter d \<noteq> None) ds))"
      by (rule total_groupby_sum)
    also have "\<dots> \<le> sum_list (map batsman_runs ds)"
      using nonneg by (induction ds) auto
    finally show ?thesis .
  qed
  from len srt tot le show ?thesis by simp
qed

theorem top_run_scorers_top10_witness:
  "list_all (\<lambda>d. 0 \<le> batsman_runs d) sample \<and>
   top_run_scorers sample = [(''Kohli'', 11), (''Dhoni'', 6), (''Gill'', 1)] \<and>
   sum_list (map batsman_runs sample) = 18 \<and>
   sum_list (map snd (top_run_scorers sample)) \<le> sum_list (map batsman_runs sample)"
proof -
  have h: "list_all (\<lambda>d. 0 \<le> batsman_runs d) sample" by code_simp
  have v: "top_run_scorers sample = [(''Kohli'', 11), (''Dhoni'', 6), (''Gill'', 1)]" by code_simp
  have t: "sum_list (map batsman_runs sample) = 18" by code_simp
  from h have "\<forall>d \<in> set sample. 0 \<le> batsman_runs d" by (simp add: list_all_iff)
  with top_run_scorers_top10 [of sample]
  have "sum_list (map snd (top_run_scorers sample)) \<le> sum_list (map batsman_runs sample)"
    by blast
  with h v t show ?thesis by simp
qed

section \<open>Top wicket takers\<close>

text \<open>
  Claim C6. Every count that \<open>top_wicket_takers\<close> returns is the number of deliveries of
  that bowler whose \<open>is_wicket\<close> is 1, and a delivery whose \<open>is_wicket\<close> is not 1
  changes nothing: the result is the same with the delivery as without it, wherever it
  stands in the table.
\<close>

theorem top_wicket_takers_only_wickets:
  "(\<forall>(b, n) \<in> set (top_wicket_takers ds).
      n = int (length (filter (\<lambda>d. bowler d = Some b \<and> is_wicket d = 1) ds))) \<and>
   (is_wicket d \<noteq> 1 \<longrightarrow> top_wicket_takers (xs @ d # ys) = top_wicket_takers (xs @ ys))"
proof -
  let ?w = "filter (\<lambda>d. is_wicket d = 1) ds"
  have "n = int (length (filter (\<lambda>d. bowler d = Some b \<and> is_wicket d = 1) ds))"
    if "(b, n) \<in> set (top_wicket_takers ds)" for b n
  proof -
    from that have "(b, n) \<in> set (groupby_sum bowler (\<lambda>r. 1) ?w)"
      using set_nlargest [of 10 "groupby_sum bowler (\<lambda>r. 1) ?w"]
      by (auto simp: top_wicket_takers_def groupby_size_def)
    then have "n = sum_list (map (\<lambda>r. 1) (filter (\<lambda>r. bowler r = Some b) ?w))"
      by (rule bucket_groupby_sum)
    also have "\<dots> = int (length (filter (\<lambda>r. bowler r = Some b) ?w))"
      by (simp add: sum_list_triv)
    also have "filter (\<lambda>r. bowler r = Some b) ?w =
        filter (\<lambda>d. bowler d = Some b \<and> is_wicket d = 1) ds"
      by (simp add: conj_commute)
    finally show ?thesis .
  qed
  moreover have "top_wicket_takers (xs @ d # ys) = top_wicket_takers (xs @ ys)"
    if "is_wicket d \<noteq> 1"
    using that by (simp add: top_wicket_takers_def)
  ultimately show ?thesis by blast
qed

theorem top_wicket_takers_only_wickets_witness:
  "is_wicket (ball 3 ''Gill'' ''Bumrah'' 4 0 None) \<noteq> 1 \<and>
   top_wicket_takers (ball 3 ''Gill'' ''Bumrah'' 4 0 None # sample) = top_wicket_takers sample \<and>
   top_wicket_takers sample = [(''Bumrah'', 2), (''Rashid'', 1)]"
proof -
  have h: "is_wicket (ball 3 ''Gill'' ''Bumrah'' 4 0 None) \<noteq> 1" by (simp add: ball_def)
  have v: "top_wicket_takers sample = [(''Bumrah'', 2), (''Rashid'', 1)]" by code_simp
  from h top_wicket_takers_only_wickets [of sample "ball 3 ''Gill'' ''Bumrah'' 4 0 None" "[]" sample]
  have "top_wicket_takers (ball 3 ''Gill'' ''Bumrah'' 4 0 None # sample) = top_wicket_takers sample"
    by simp
  with h v show ?thesis by simp
qed

section \<open>Season trend\<close>

lemma sorted_list_two: "a < b \<Longrightarrow> sorted_list_of_set {a, b} = [a, b]"
  using sorted_list_of_set.idem_if_sorted_distinct [of "[a, b]"] by auto

text \<open>
  Claim C8. \<open>player_trend\<close> has one row for each season in which the player has a
  delivery, in strictly ascending order of the season, with the sum of the player's
  \<open>batsman_runs\<close> in that season. In particular a player whose seasons are 2020 and
  2021, with 30 and 50 runs, gets the rows (2020, 30) and (2021, 50).
\<close>

theorem player_trend_by_season:
  "player_trend ds p =
     map (\<lambda>s. (s, sum_list (map batsman_runs
                   (filter (\<lambda>d. batter d = Some p \<and> season d = Some s) ds))))
       (sorted_list_of_set {s. Some s \<in> set (map season (filter (\<lambda>d. batter d = Some p) ds))}) \<and>
   sorted_wrt (<) (map fst (player_trend ds p)) \<and>
   ({s. Some s \<in> set (map season (filter (\<lambda>d. batter d = Some p) ds))} = {''2020'', ''2021''} \<and>
    sum_list (map batsman_runs (filter (\<lambda>d. batter d = Some p \<and> season d = Some ''2020'') ds)) = 30 \<and>
    sum_list (map batsman_runs (filter (\<lambda>d. batter d = Some p \<and> season d = Some ''2021'') ds)) = 50
    \<longrightarrow> player_trend ds p = [(''2020'', 30), (''2021'', 50)])"
proof -
  let ?df = "filter (\<lambda>d. batter d = Some p) ds"
  have flt: "filter (\<lambda>r. season r = Some s) ?df =
      filter (\<lambda>d. batter d = Some p \<and> season d = Some s) ds" for s
    by (simp add: conj_commute)
  have eq: "player_trend ds p =
     map (\<lambda>s. (s, sum_list (map batsman_runs
                   (filter (\<lambda>d. batter d = Some p \<and> season d = Some s) ds))))
       (sorted_list_of_set {s. Some s \<in> set (map season ?df)})"
    unfolding player_trend_def groupby_sum_eq [of season batsman_runs ?df] flt by simp
  have srt: "sorted_wrt (<) (map fst (player_trend ds p))"
    unfolding player_trend_def by (rule sorted_groupby_sum)
  have lt: "''2020'' < ''2021''" by code_simp
  have two: "sorted_list_of_set {''2020'', ''2021''} = [''2020'', ''2021'']"
    using lt by (rule sorted_list_two)
  show ?thesis
    using srt by (auto simp: eq two simp del: set_map)
qed

theorem player_trend_by_season_witness:
  "set (dropna (map season (filter (\<lambda>d. batter d = Some ''Kohli'') trend_sample))) = {''2020'', ''2021''} \<and>
   sum_list (map batsman_runs
     (filter (\<lambda>d. batter d = Some ''Kohli'' \<and> season d = Some ''2020'') trend_sample)) = 30 \<and>
   sum_list (map batsman_runs
     (filter (\<lambda>d. batter d = Some ''Kohli'' \<and> season d = Some ''2021'') trend_sample)) = 50 \<and>
   player_trend trend_sample ''Kohli'' = [(''2020'', 30), (''2021'', 50)]"
proof -
  let ?df = "filter (\<lambda>d. batter d = Some ''Kohli'') trend_sample"
  have s: "set (dropna (map season ?df)) = {''2020'', ''2021''}"
    by code_simp
  have a: "sum_list (map batsman_runs
     (filter (\<lambda>d. batter d = Some ''Kohli'' \<and> season d = Some ''2020'') trend_sample)) = 30"
    by code_simp
  have b: "sum_list (map batsman_runs
     (filter (\<lambda>d. batter d = Some ''Kohli'' \<and> season d = Some ''2021'') trend_sample)) = 50"
    by code_simp
  from s have "{s. Some s \<in> set (map season ?df)} = {''2020'', ''2021''}"
    by (simp only: set_dropna)
  with a b player_trend_by_season [of trend_sample "''Kohli''"]
  have "player_trend trend_sample ''Kohli'' = [(''2020'', 30), (''2021'', 50)]"
    by blast
  with s a b show ?thesis by simp
qed

section \<open>Player summary\<close>

lemma player_stats_no_rows:
  "filter (\<lambda>d. batter d = Some p) ds = [] \<Longrightarrow> player_stats fsr ds p = Inl ValueError"
  by (simp add: player_stats_def groupby_sum_def idxmax_def)

text \<open>
  Claim C1, as the code has it. For a player name that is not a batter of the table,
  \<open>player_stats\<close> does not return empty aggregates: the per-season series is empty,
  \<^verbatim>\<open>idxmax\<close> raises \<^verbatim>\<open>ValueError\<close>, and the error leaves the call.
\<close>

theorem player_stats_unknown_player:
  "Some p \<notin> set (map batter ds) \<Longrightarrow> player_stats fsr ds p = Inl ValueError"
proof -
  assume "Some p \<notin> set (map batter ds)"
  then have "filter (\<lambda>d. batter d = Some p) ds = []"
    by (force simp: filter_empty_conv image_iff)
  then show ?thesis by (rule player_stats_no_rows)
qed

theorem player_stats_unknown_player_witness:
  "Some ''Tendulkar'' \<notin> set (map batter sample) \<and>
   player_stats exact_sr sample ''Tendulkar'' = Inl ValueError"
proof -
  have h: "Some ''Tendulkar'' \<notin> set (map batter sample)" by code_simp
  from player_stats_unknown_player [OF h, of exact_sr] h show ?thesis by simp
qed

text \<open>
  Claim C7, as the code has it. For a player with no delivery as batter the guarded
  strike-rate expression is the integer 0 and no division is made, but \<open>player_stats\<close>
  still returns nothing: it ends in the \<^verbatim>\<open>ValueError\<close> of \<^verbatim>\<open>idxmax\<close>.
\<close>

theorem player_stats_zero_balls:
  "length (filter (\<lambda>d. batter d = Some p) ds) = 0 \<Longrightarrow>
     strike_rate fsr (sum_list (map batsman_runs (filter (\<lambda>d. batter d = Some p) ds)))
       (length (filter (\<lambda>d. batter d = Some p) ds)) = IntNum 0 \<and>
     player_stats fsr ds p = Inl ValueError"
  by (simp add: strike_rate_def player_stats_no_rows)

theorem player_stats_zero_balls_witness:
  "length (filter (\<lambda>d. batter d = Some ''Rashid'') sample) = 0 \<and>
   strike_rate exact_sr 0 0 = IntNum 0 \<and>
   player_stats exact_sr sample ''Rashid'' = Inl ValueError"
proof -
  have h: "length (filter (\<lambda>d. batter d = Some ''Rashid'') sample) = 0" by code_simp
  from player_stats_zero_balls [OF h, of exact_sr] h show ?thesis by simp
qed

section \<open>The intent router\<close>

text \<open>
  Claim C4. When the lower-cased question contains a run keyword and a wicket keyword,
  \<open>ask_ai\<close> is the run-scorer branch: the run keywords are tested first.
\<close>

theorem ask_ai_run_first:
  "any_in run_keywords (lower q) \<Longrightarrow> any_in wicket_keywords (lower q) \<Longrightarrow>
     ask_ai client ds q = run_scorer_branch client ds q"
  by (simp add: ask_ai_def)

theorem ask_ai_run_first_witness:
  "any_in run_keywords (lower ''Who has more RUNS and wickets?'') \<and>
   any_in wicket_keywords (lower ''Who has more RUNS and wickets?'') \<and>
   ask_ai echo_client sample ''Who has more RUNS and wickets?'' =
     Inr (''In the IPL, Kohli is the highest run scorer with 11 runs.'',
          Some \<lparr>x_col = ''batter'', y_col = ''batsman_runs'',
                bars = [(''Kohli'', 11), (''Dhoni'', 6), (''Gill'', 1)],
                height = 650, colour = ''#4988C4''\<rparr>,
          [])"
proof -
  have r: "any_in run_keywords (lower ''Who has more RUNS and wickets?'')" by code_simp
  have w: "any_in wicket_keywords (lower ''Who has more RUNS and wickets?'')" by code_simp
  have v: "run_scorer_branch echo_client sample ''Who has more RUNS and wickets?'' =
     Inr (''In the IPL, Kohli is the highest run scorer with 11 runs.'',
          Some \<lparr>x_col = ''batter'', y_col = ''batsman_runs'',
                bars = [(''Kohli'', 11), (''Dhoni'', 6), (''Gill'', 1)],
                height = 650, colour = ''#4988C4''\<rparr>,
          [])"
    by code_simp
  from ask_ai_run_first [OF r w, of echo_client sample] r w v show ?thesis by simp
qed

lemma llm_answer_fails: "client facts q = Inl e \<Longrightarrow> llm_answer client facts q = Inl e"
  by (simp add: llm_answer_def)

text \<open>
  Claim C2, amended. When the remote call fails for the question, \<open>ask_ai\<close> returns
  no answer text and no chart: the failure leaves \<open>ask_ai\<close> as it is, since neither
  \<open>llm_answer\<close> nor \<open>ask_ai\<close> handles it. (On a table with no batter, or with no
  wicket, the matched branch has already raised \<^verbatim>\<open>IndexError\<close> before the call.)
\<close>

theorem ask_ai_remote_failure:
  assumes "\<forall>facts. client facts q = Inl e"
  shows "ask_ai client ds q =
     Inl (if (any_in run_keywords (lower q) \<and> top_run_scorers ds = []) \<or>
             (\<not> any_in run_keywords (lower q) \<and> any_in wicket_keywords (lower q) \<and>
              top_wicket_takers ds = [])
          then IndexError else e)"
proof -
  have f: "llm_answer client facts q = Inl e" for facts
    using assms by (simp add: llm_answer_fails)
  have r: "run_scorer_branch client ds q =
      Inl (if top_run_scorers ds = [] then IndexError else e)"
    by (simp add: run_scorer_branch_def Let_def f split: list.splits)
  have w: "wicket_taker_branch client ds q =
      Inl (if top_wicket_takers ds = [] then IndexError else e)"
    by (simp add: wicket_taker_branch_def Let_def f split: list.splits)
  have b: "fallback_branch client q = Inl e"
    by (simp add: fallback_branch_def f)
  show ?thesis by (simp add: ask_ai_def Let_def r w b)
qed

theorem ask_ai_remote_failure_witness:
  "(list_all (\<lambda>facts. failing_client facts ''Who scored the most runs?'' = Inl RemoteServiceError)
      [''In the IPL, Kohli is the highest run scorer with 11 runs.'']) \<and>
   top_run_scorers sample \<noteq> [] \<and>
   ask_ai failing_client sample ''Who scored the most runs?'' = Inl RemoteServiceError"
proof -
  have h: "\<forall>facts. failing_client facts ''Who scored the most runs?'' = Inl RemoteServiceError"
    by (simp add: failing_client_def)
  have r: "any_in run_keywords (lower ''Who scored the most runs?'')" by code_simp
  have t: "top_run_scorers sample \<noteq> []" by code_simp
  from ask_ai_remote_failure [of failing_client "''Who scored the most runs?''" RemoteServiceError sample] r t h
  show ?thesis by (simp add: failing_client_def)
qed

text \<open>
  The claim as stated fails: with a remote service that is down, each of the three
  branches ends in the error, not in a message.
\<close>

theorem ask_ai_remote_failure_counterexample:
  "ask_ai failing_client sample ''Who scored the most runs?'' = Inl RemoteServiceError \<and>
   ask_ai failing_client sample ''Top wicket taker?'' = Inl RemoteServiceError \<and>
   ask_ai failing_client sample ''Who won in 2020?'' = Inl RemoteServiceError"
  by code_simp

lemma run_scorer_branch_Inr:
  "run_scorer_branch client ds q = Inr (ans, fig, echo) \<Longrightarrow> echo = [] \<and> fig \<noteq> None"
  by (auto simp: run_scorer_branch_def Let_def split: list.splits sum.splits)

lemma wicket_taker_branch_Inr:
  "wicket_taker_branch client ds q = Inr (ans, fig, echo) \<Longrightarrow> echo = [] \<and> fig \<noteq> None"
  by (auto simp: wicket_taker_branch_def Let_def split: list.splits sum.splits)

lemma fallback_branch_Inr:
  "fallback_branch client q = Inr (ans, fig, echo) \<Longrightarrow> echo = [] \<and> fig = None"
  by (auto simp: fallback_branch_def split: sum.splits)

text \<open>
  Claim C3, amended. Whenever \<open>ask_ai\<close> returns, the third element is the empty text,
  for a matched intent as for the fallback (it clears the question box); the chart is
  absent exactly for the fallback.
\<close>

theorem ask_ai_third_empty:
  assumes "ask_ai client ds q = Inr (ans, fig, echo)"
  shows "echo = [] \<and>
     (fig = None \<longleftrightarrow>
        \<not> any_in run_keywords (lower q) \<and> \<not> any_in wicket_keywords (lower q))"
proof (cases "any_in run_keywords (lower q)")
  case True
  with assms have "run_scorer_branch client ds q = Inr (ans, fig, echo)"
    by (simp add: ask_ai_def)
  with True show ?thesis by (auto dest: run_scorer_branch_Inr)
next
  case False
  show ?thesis
  proof (cases "any_in wicket_keywords (lower q)")
    case True
    with False assms have "wicket_taker_branch client ds q = Inr (ans, fig, echo)"
      by (simp add: ask_ai_def)
    with True show ?thesis by (auto dest: wicket_taker_branch_Inr)
  next
    case w: False
    with False assms have "fallback_branch client q = Inr (ans, fig, echo)"
      by (simp add: ask_ai_def)
    with False w show ?thesis by (auto dest: fallback_branch_Inr)
  qed
qed

theorem ask_ai_third_empty_witness:
  "ask_ai echo_client sample ''Top wicket taker?'' =
     Inr (''In the IPL, Bumrah is the leading wicket taker with 2 wickets.'',
          Some \<lparr>x_col = ''bowler'', y_col = ''wickets'',
                bars = [(''Bumrah'', 2), (''Rashid'', 1)],
                height = 650, colour = ''#1C4D8D''\<rparr>,
          []) \<and>
   any_in wicket_keywords (lower ''Top wicket taker?'')"
proof -
  have v: "ask_ai echo_client sample ''Top wicket taker?'' =
     Inr (''In the IPL, Bumrah is the leading wicket taker with 2 wickets.'',
          Some \<lparr>x_col = ''bowler'', y_col = ''wickets'',
                bars = [(''Bumrah'', 2), (''Rashid'', 1)],
                height = 650, colour = ''#1C4D8D''\<rparr>,
          [])"
    by code_simp
  have w: "any_in wicket_keywords (lower ''Top wicket taker?'')" by code_simp
  from ask_ai_third_empty [OF v] v w show ?thesis by simp
qed

text \<open>
  The claim as stated fails: a question with a run keyword is not echoed.
\<close>

theorem ask_ai_echo_counterexample:
  "any_in run_keywords (lower ''Who scored the most runs?'') \<and>
   ask_ai echo_client sample ''Who scored the most runs?'' =
     Inr (''In the IPL, Kohli is the highest run scorer with 11 runs.'',
          Some \<lparr>x_col = ''batter'', y_col = ''batsman_runs'',
                bars = [(''Kohli'', 11), (''Dhoni'', 6), (''Gill'', 1)],
                height = 650, colour = ''#4988C4''\<rparr>,
          []) \<and>
   snd (snd (projr (ask_ai echo_client sample ''Who scored the most runs?''))) \<noteq>
     ''Who scored the most runs?''"
  by code_simp

section \<open>Comparing a player with itself\<close>

text \<open>
  \<open>compare_players\<close> has no test for equal names. On the same name twice it computes
  the statistics of that player for each slot; where that succeeds, the facts sent to
  the language model hold the same line (runs, strike rate, matches) twice and the chart
  has two bars with the same label and the same height.
\<close>

lemma compare_players_same_name:
  "compare_players client fsr fstr ds p p =
     (case player_stats fsr ds p of
        Inl e \<Rightarrow> Inl e
      | Inr (r, sr, m, best) \<Rightarrow>
          (case llm_answer client
                  ([CHR 0x0A] @ ''In the IPL:'' @ [CHR 0x0A] @
                   stats_line fstr p r sr m @ stats_line fstr p r sr m)
                  (''Compare '' @ p @ '' vs '' @ p) of
             Inl e \<Rightarrow> Inl e
           | Inr ans \<Rightarrow>
               Inr (ans,
                    \<lparr>x_col = ''Player'', y_col = ''Runs'', bars = [(p, r), (p, r)],
                     height = 550, colour = ''#0F2854''\<rparr>)))"
proof (cases "player_stats fsr ds p")
  case (Inl e)
  then show ?thesis by (simp only: compare_players_def sum.case)
next
  case (Inr t)
  obtain r sr m best where t: "t = (r, sr, m, best)" by (cases t)
  show ?thesis
    unfolding compare_players_def Inr t by (simp only: sum.case prod.case Let_def)
qed

lemma compare_players_same_name_example:
  "player_stats exact_sr sample ''Kohli'' = Inr (11, FloatNum 36667, 2, ''2020'') \<and>
   compare_players echo_client exact_sr exact_str sample ''Kohli'' ''Kohli'' =
     Inr (''In the IPL:'' @ [CHR 0x0A] @
          ''Kohli: 11 runs, strike rate 366.67, 2 matches'' @ [CHR 0x0A] @
          ''Kohli: 11 runs, strike rate 366.67, 2 matches'',
          \<lparr>x_col = ''Player'', y_col = ''Runs'', bars = [(''Kohli'', 11), (''Kohli'', 11)],
           height = 550, colour = ''#0F2854''\<rparr>)"
proof -
  have s: "player_stats exact_sr sample ''Kohli'' = Inr (11, FloatNum 36667, 2, ''2020'')"
    by code_simp
  have l: "llm_answer echo_client
       ([CHR 0x0A] @ ''In the IPL:'' @ [CHR 0x0A] @
        stats_line exact_str ''Kohli'' 11 (FloatNum 36667) 2 @
        stats_line exact_str ''Kohli'' 11 (FloatNum 36667) 2)
       (''Compare '' @ ''Kohli'' @ '' vs '' @ ''Kohli'') =
     Inr (''In the IPL:'' @ [CHR 0x0A] @
          ''Kohli: 11 runs, strike rate 366.67, 2 matches'' @ [CHR 0x0A] @
          ''Kohli: 11 runs, strike rate 366.67, 2 matches'')"
    by code_simp
  have c: "compare_players echo_client exact_sr exact_str sample ''Kohli'' ''Kohli'' =
     Inr (''In the IPL:'' @ [CHR 0x0A] @
          ''Kohli: 11 runs, strike rate 366.67, 2 matches'' @ [CHR 0x0A] @
          ''Kohli: 11 runs, strike rate 366.67, 2 matches'',
          \<lparr>x_col = ''Player'', y_col = ''Runs'', bars = [(''Kohli'', 11), (''Kohli'', 11)],
           height = 550, colour = ''#0F2854''\<rparr>)"
    by (simp only: compare_players_same_name s l sum.case prod.case)
  from s c show ?thesis by (rule conjI)
qed

lemma groupby_sum_no_key: "\<forall>r \<in> set rows. key r = None \<Longrightarrow> groupby_sum key val rows = []"
proof -
  assume none: "\<forall>r \<in> set rows. key r = None"
  have "fst ` set (groupby_sum key val rows) = {k. Some k \<in> key ` set rows}"
    by (rule keys_groupby_sum)
  also have "\<dots> = {}"
    using none by auto
  finally show ?thesis by simp
qed

lemma player_stats_no_season:
  assumes "\<forall>d \<in> set ds. batter d = Some p \<longrightarrow> season d = None"
  shows "player_stats fsr ds p = Inl ValueError"
proof -
  have "groupby_sum season batsman_runs (filter (\<lambda>d. batter d = Some p) ds) = []"
    using assms by (intro groupby_sum_no_key) simp
  then show ?thesis by (simp add: player_stats_def idxmax_def)
qed

text \<open>
  Claim C9, as the code has it. The comparison of a player with itself does not produce
  two identical slots for every name: for a player none of whose deliveries as batter
  carries a season (in particular for every name that is not a batter of the table),
  \<open>player_stats\<close> ends in the \<^verbatim>\<open>ValueError\<close> of \<^verbatim>\<open>idxmax\<close> for the first slot already,
  and \<open>compare_players\<close> returns nothing.
\<close>

theorem compare_players_self_raises:
  assumes "\<forall>d \<in> set ds. batter d = Some p \<longrightarrow> season d = None"
  shows "compare_players client fsr fstr ds p p = Inl ValueError"
  using player_stats_no_season [OF assms, of fsr]
  by (simp only: compare_players_def sum.case)

theorem compare_players_self_raises_witness:
  "''Gill'' \<in> set (players sample) \<and>
   map season (filter (\<lambda>d. batter d = Some ''Gill'') sample) = [None, None] \<and>
   compare_players echo_client exact_sr exact_str sample ''Gill'' ''Gill'' = Inl ValueError"
proof -
  have g: "''Gill'' \<in> set (players sample)" by code_simp
  have m: "map season (filter (\<lambda>d. batter d = Some ''Gill'') sample) = [None, None]"
    by code_simp
  have "\<forall>s \<in> set (map season (filter (\<lambda>d. batter d = Some ''Gill'') sample)). s = None"
    unfolding m by simp
  then have h: "\<forall>d \<in> set sample. batter d = Some ''Gill'' \<longrightarrow> season d = None"
    by auto
  from compare_players_self_raises [OF h, of echo_client exact_sr exact_str] g m
  show ?thesis by simp
qed

end
